theory Spec2Isabelle
  imports Main "HOL-Library.AList"
begin

section \<open>Returns and risk analytics of \<^verbatim>\<open>app.py\<close>\<close>

text \<open>
  The development embeds \<^verbatim>\<open>calculate_cagr\<close> and \<^verbatim>\<open>calculate_annual_volatility\<close>
  of \<^verbatim>\<open>src/app.py\<close>. Both consume a pandas DataFrame whose index holds one
  timestamp per trading day. The model keeps
  \<^item> the column labels in their order (\<open>columns\<close>),
  \<^item> one entry per row: the date, as a day number, and the cells of that row.
  A cell is a float64. The arithmetic of float64 (IEEE rounding, overflow to infinity) is
  not fixed here: every arithmetic operation the code applies is a field of the record
  \<open>float_ops\<close>, taken as a parameter, and the theorems hold for every choice of it. Only
  NaN is visible in the model, since \<^verbatim>\<open>dropna\<close> tests for it: a cell is \<open>NaN\<close> or
  \<open>Num x\<close>, and an operation with a NaN operand gives NaN.
\<close>

subsection \<open>Values\<close>

datatype py_error = IndexError | ValueError | ZeroDivisionError

datatype 'f float64 = NaN | Num 'f

record 'f float_ops =
  fl_of_int :: "int \<Rightarrow> 'f"
  fl_true_div :: "int \<Rightarrow> int \<Rightarrow> 'f"
  fl_div :: "'f \<Rightarrow> 'f \<Rightarrow> 'f float64"
  fl_sub :: "'f \<Rightarrow> 'f \<Rightarrow> 'f float64"
  fl_mul :: "'f \<Rightarrow> 'f \<Rightarrow> 'f float64"
  fl_pow :: "'f \<Rightarrow> 'f \<Rightarrow> 'f float64"
  fl_sqrt :: "'f \<Rightarrow> 'f float64"
  fl_sum :: "'f list \<Rightarrow> 'f float64"
  fl_round :: "'f \<Rightarrow> int \<Rightarrow> 'f"

text \<open>
  \<open>fl_of_int\<close> converts a Python int operand, \<open>fl_true_div\<close> is Python's \<^verbatim>\<open>a / b\<close>
  on two ints with \<open>b \<noteq> 0\<close>, \<open>fl_sum\<close> adds up an array (the order of the additions is
  the library's), \<open>fl_round x n\<close> is \<^verbatim>\<open>round(x, n)\<close>. The binary operations are lifted
  to cells: NaN in, NaN out.
\<close>

definition nan_lift2 :: "('f \<Rightarrow> 'f \<Rightarrow> 'f float64) \<Rightarrow> 'f float64 \<Rightarrow> 'f float64 \<Rightarrow> 'f float64" where
  "nan_lift2 f a b =
     (case a of NaN \<Rightarrow> NaN | Num x \<Rightarrow> (case b of NaN \<Rightarrow> NaN | Num y \<Rightarrow> f x y))"

definition fdiv :: "'f float_ops \<Rightarrow> 'f float64 \<Rightarrow> 'f float64 \<Rightarrow> 'f float64" where
  "fdiv ops = nan_lift2 (fl_div ops)"

definition fsub :: "'f float_ops \<Rightarrow> 'f float64 \<Rightarrow> 'f float64 \<Rightarrow> 'f float64" where
  "fsub ops = nan_lift2 (fl_sub ops)"

definition fmul :: "'f float_ops \<Rightarrow> 'f float64 \<Rightarrow> 'f float64 \<Rightarrow> 'f float64" where
  "fmul ops = nan_lift2 (fl_mul ops)"

definition fpow :: "'f float_ops \<Rightarrow> 'f float64 \<Rightarrow> 'f float64 \<Rightarrow> 'f float64" where
  "fpow ops = nan_lift2 (fl_pow ops)"

definition fsqrt :: "'f float_ops \<Rightarrow> 'f float64 \<Rightarrow> 'f float64" where
  "fsqrt ops a = (case a of NaN \<Rightarrow> NaN | Num x \<Rightarrow> fl_sqrt ops x)"

definition fround :: "'f float_ops \<Rightarrow> 'f float64 \<Rightarrow> int \<Rightarrow> 'f float64" where
  "fround ops a n = (case a of NaN \<Rightarrow> NaN | Num x \<Rightarrow> Num (fl_round ops x n))"

definition fsum :: "'f float_ops \<Rightarrow> 'f float64 list \<Rightarrow> 'f float64" where
  "fsum ops xs = (if NaN \<in> set xs then NaN else fl_sum ops [x. Num x \<leftarrow> xs])"

subsection \<open>Data frames and series\<close>

type_synonym 'f series = "(int \<times> 'f float64) list"

record 'f dataframe =
  columns :: "string list"
  rows :: "(int \<times> (string \<Rightarrow> 'f float64)) list"

text \<open>\<^verbatim>\<open>history[adj_col]\<close>: the series of one column, with the frame's index.\<close>

definition get_column :: "'f dataframe \<Rightarrow> string \<Rightarrow> 'f series" where
  "get_column history col = map (\<lambda>r. (fst r, snd r col)) (rows history)"

text \<open>\<^verbatim>\<open>xs.iloc[i]\<close> (and Python indexing): a negative index counts from the end.\<close>

definition iloc :: "'a list \<Rightarrow> int \<Rightarrow> py_error + 'a" where
  "iloc xs i =
     (if 0 \<le> i \<and> i < int (length xs) then Inr (xs ! nat i)
      else if i < 0 \<and> - i \<le> int (length xs) then Inr (xs ! nat (int (length xs) + i))
      else Inl IndexError)"

text \<open>\<^verbatim>\<open>s.dropna()\<close>: the entries whose value is not NaN.\<close>

definition dropna :: "'f series \<Rightarrow> 'f series" where
  "dropna s = filter (\<lambda>r. snd r \<noteq> NaN) s"

subsection \<open>Finding the adjusted-close column\<close>

text \<open>
  \<^verbatim>\<open>col.lower().replace(" ", "")\<close> on the characters of a column label. Labels
  are ASCII strings here; no character outside ASCII lowercases to a letter of
  "adjclose", so the match is the same on Python's strings.
\<close>

definition lower_char :: "char \<Rightarrow> char" where
  "lower_char c =
     (if (65::nat) \<le> of_char c \<and> of_char c \<le> (90::nat) then char_of (of_char c + (32::nat)) else c)"

definition str_lower :: "string \<Rightarrow> string" where
  "str_lower s = map lower_char s"

definition remove_spaces :: "string \<Rightarrow> string" where
  "remove_spaces s = filter (\<lambda>c. c \<noteq> CHR '' '') s"

text \<open>
  \<^verbatim>\<open>next((col for col in history.columns if ... == "adjclose"), None)\<close>: the first
  label that matches, or None.
\<close>

definition find_adj_col :: "string list \<Rightarrow> string option" where
  "find_adj_col cols = find (\<lambda>col. remove_spaces (str_lower col) = ''adjclose'') cols"

subsection \<open>Resampling to calendar days\<close>

text \<open>
  \<^verbatim>\<open>s.resample('1D').ffill()\<close> on a series indexed by dates. pandas orders the series
  by its index, lays out one bin per calendar day from the first date to the last, and
  reindexes the series onto the bins with \<^verbatim>\<open>method='ffill'\<close>: the bin of day \<open>d\<close>
  takes the value of the last row dated \<open>d\<close> or earlier. The fill compares index labels
  only, so a NaN cell of a row stays NaN (and is what the following gap days receive).
  Reindexing refuses an index with a duplicate label (ValueError).
\<close>

definition pad_at :: "'f series \<Rightarrow> int \<Rightarrow> 'f float64" where
  "pad_at s d = (case filter (\<lambda>r. fst r \<le> d) s of [] \<Rightarrow> NaN | r # rs \<Rightarrow> snd (last (r # rs)))"

definition resample_1D_ffill :: "'f series \<Rightarrow> py_error + 'f series" where
  "resample_1D_ffill s =
     (let s' = sort_key fst s in
      if s' = [] then Inr []
      else if \<not> distinct (map fst s') then Inl ValueError
      else Inr (map (\<lambda>d. (d, pad_at s' d)) [fst (hd s') .. fst (last s')]))"

subsection \<open>\<^verbatim>\<open>calculate_cagr\<close>\<close>

text \<open>\<^verbatim>\<open>str(yr)\<close> for a Python int, and the key \<^verbatim>\<open>f"{yr}Y"\<close>.\<close>

fun digits :: "nat \<Rightarrow> string" where
  "digits n = (if n < 10 then [char_of (48 + n)] else digits (n div 10) @ [char_of (48 + n mod 10)])"

declare digits.simps [simp del]

definition str_of_int :: "int \<Rightarrow> string" where
  "str_of_int i = (if i < 0 then CHR ''-'' # digits (nat (- i)) else digits (nat i))"

definition label :: "int \<Rightarrow> string" where
  "label yr = str_of_int yr @ ''Y''"

text \<open>Reading a decimal numeral back, to tell the keys of different horizons apart.\<close>

definition num_of :: "string \<Rightarrow> nat" where
  "num_of cs = foldl (\<lambda>a c. 10 * a + (of_char c - 48)) 0 cs"

text \<open>An entry of the result: a percentage, or the string \<^verbatim>\<open>"N/A"\<close>.\<close>

datatype 'f cagr_entry = Pct "'f float64" | NotAvailable

text \<open>
  The loop over \<^verbatim>\<open>years\<close>, with the dict \<^verbatim>\<open>cagr_results\<close> as an association
  list in insertion order (\<open>AList.update\<close> overwrites an existing key in place, as the
  assignment to a dict key does). \<^verbatim>\<open>start_price.iloc[-days]\<close> raises IndexError when
  out of range, and \<^verbatim>\<open>1 / yr\<close> raises ZeroDivisionError for \<open>yr = 0\<close>.
\<close>

fun cagr_loop :: "'f float_ops \<Rightarrow> 'f float64 \<Rightarrow> 'f series \<Rightarrow> int list \<Rightarrow>
    (string \<times> 'f cagr_entry) list \<Rightarrow> py_error + (string \<times> 'f cagr_entry) list" where
  "cagr_loop ops end_price start_price [] cagr_results = Inr cagr_results"
| "cagr_loop ops end_price start_price (yr # years) cagr_results =
     (let days = 252 * yr in
      if int (length start_price) \<ge> days then
        (case iloc (map snd start_price) (- days) of
           Inl e \<Rightarrow> Inl e
         | Inr start \<Rightarrow>
             if yr = 0 then Inl ZeroDivisionError
             else
               let cagr = fsub ops (fpow ops (fdiv ops end_price start) (Num (fl_true_div ops 1 yr)))
                            (Num (fl_of_int ops 1))
               in cagr_loop ops end_price start_price years
                    (AList.update (label yr) (Pct (fround ops (fmul ops cagr (Num (fl_of_int ops 100))) 2))
                       cagr_results))
      else cagr_loop ops end_price start_price years
             (AList.update (label yr) NotAvailable cagr_results))"

text \<open>
  The result is \<open>Inl e\<close> when the call raises, \<open>Inr None\<close> when it returns None and
  \<open>Inr (Some d)\<close> when it returns the dict \<open>d\<close>. \<^verbatim>\<open>not adj_col\<close> holds for None and
  for the empty string.
\<close>

definition calculate_cagr :: "'f float_ops \<Rightarrow> 'f dataframe \<Rightarrow> int list \<Rightarrow>
    py_error + (string \<times> 'f cagr_entry) list option" where
  "calculate_cagr ops history years =
     (case find_adj_col (columns history) of
        None \<Rightarrow> Inr None
      | Some adj_col \<Rightarrow>
          if adj_col = [] \<or> length (rows history) = 0 then Inr None
          else
            (case iloc (map snd (get_column history adj_col)) (- 1) of
               Inl e \<Rightarrow> Inl e
             | Inr end_price \<Rightarrow>
                 (case resample_1D_ffill (get_column history adj_col) of
                    Inl e \<Rightarrow> Inl e
                  | Inr r \<Rightarrow>
                      (case cagr_loop ops end_price (dropna r) years [] of
                         Inl e \<Rightarrow> Inl e
                       | Inr cagr_results \<Rightarrow> Inr (Some cagr_results)))))"

subsection \<open>\<^verbatim>\<open>calculate_annual_volatility\<close>\<close>

text \<open>
  \<^verbatim>\<open>s.pct_change()\<close>: with the default \<^verbatim>\<open>fill_method='pad'\<close> of pandas 1 and 2
  a NaN cell first takes the last value before it; then every value is divided by the
  one before it (\<^verbatim>\<open>data / data.shift(1) - 1\<close>), the first having NaN before it.
  On a series without NaN cells the padding changes nothing.
\<close>

fun pad_values :: "'f float64 \<Rightarrow> 'f float64 list \<Rightarrow> 'f float64 list" where
  "pad_values prev [] = []"
| "pad_values prev (v # vs) = (if v = NaN then prev # pad_values prev vs else v # pad_values v vs)"

definition shift1 :: "'f float64 list \<Rightarrow> 'f float64 list" where
  "shift1 vs = (if vs = [] then [] else NaN # butlast vs)"

definition pct_change :: "'f float_ops \<Rightarrow> 'f series \<Rightarrow> 'f series" where
  "pct_change ops s =
     (let data = pad_values NaN (map snd s)
      in zip (map fst s)
           (map (\<lambda>p. fsub ops (fdiv ops (fst p) (snd p)) (Num (fl_of_int ops 1))) (zip data (shift1 data))))"

text \<open>
  \<^verbatim>\<open>np.std(series)\<close> hands over to \<^verbatim>\<open>series.std(ddof=0)\<close>: over the values that
  are not NaN, the square root of the sum of the squared deviations from the mean,
  divided by \<open>count - ddof\<close>; NaN when \<open>count \<le> ddof\<close>.
\<close>

definition series_std :: "'f float_ops \<Rightarrow> nat \<Rightarrow> 'f series \<Rightarrow> 'f float64" where
  "series_std ops ddof s =
     (let values = filter (\<lambda>v. v \<noteq> NaN) (map snd s); count = length values in
      if count \<le> ddof then NaN
      else
        let avg = fdiv ops (fsum ops values) (Num (fl_of_int ops (int count)));
            sqr = map (\<lambda>v. fpow ops (fsub ops avg v) (Num (fl_of_int ops 2))) values
        in fsqrt ops (fdiv ops (fsum ops sqr) (Num (fl_of_int ops (int (count - ddof))))))"

definition np_std :: "'f float_ops \<Rightarrow> 'f series \<Rightarrow> 'f float64" where
  "np_std ops s = series_std ops 0 s"

definition np_sqrt :: "'f float_ops \<Rightarrow> int \<Rightarrow> 'f float64" where
  "np_sqrt ops n = fl_sqrt ops (fl_of_int ops n)"

text \<open>The result is \<open>None\<close> when the call returns None; no statement of it raises.\<close>

definition calculate_annual_volatility :: "'f float_ops \<Rightarrow> 'f dataframe \<Rightarrow> 'f float64 option" where
  "calculate_annual_volatility ops history =
     (case find_adj_col (columns history) of
        None \<Rightarrow> None
      | Some adj_col \<Rightarrow>
          if adj_col = [] \<or> length (rows history) < 2 then None
          else
            let daily_returns = dropna (pct_change ops (get_column history adj_col));
                daily_vol = np_std ops daily_returns;
                annual_vol = fmul ops daily_vol (np_sqrt ops 252)
            in Some (fround ops (fmul ops annual_vol (Num (fl_of_int ops 100))) 2))"


section \<open>Notions used to state the properties\<close>

text \<open>
  A price series has strictly increasing dates. \<open>calendar_days\<close> lists the days from the
  first date to the last, \<open>calendar_span\<close> counts them, and a series with
  \<open>one_per_day\<close> has exactly one observation on each of them.
\<close>

definition increasing_dates :: "'f series \<Rightarrow> bool" where
  "increasing_dates s = sorted_wrt (<) (map fst s)"

definition calendar_days :: "'f series \<Rightarrow> int list" where
  "calendar_days s = (if s = [] then [] else [fst (hd s) .. fst (last s)])"

definition calendar_span :: "'f series \<Rightarrow> int" where
  "calendar_span s = (if s = [] then 0 else fst (last s) - fst (hd s) + 1)"

definition one_per_day :: "'f series \<Rightarrow> bool" where
  "one_per_day s = (map fst s = calendar_days s)"

text \<open>The \<open>k\<close>-th element counted from the end, the last one being number 1.\<close>

definition nth_from_end :: "'a list \<Rightarrow> nat \<Rightarrow> 'a" where
  "nth_from_end xs k = rev xs ! (k - 1)"

text \<open>\<open>((end / start) ^ (1 / h) - 1) * 100\<close>, rounded to 2 decimal places.\<close>

definition annualised_pct :: "'f float_ops \<Rightarrow> 'f float64 \<Rightarrow> 'f float64 \<Rightarrow> int \<Rightarrow> 'f float64" where
  "annualised_pct ops end start h =
     fround ops
       (fmul ops
          (fsub ops (fpow ops (fdiv ops end start) (Num (fl_true_div ops 1 h))) (Num (fl_of_int ops 1)))
          (Num (fl_of_int ops 100)))
       2"

text \<open>What a positive horizon \<open>h\<close> gets, given the daily series \<open>sp\<close>.\<close>

definition horizon_entry :: "'f float_ops \<Rightarrow> 'f float64 \<Rightarrow> 'f series \<Rightarrow> int \<Rightarrow> 'f cagr_entry" where
  "horizon_entry ops end_price sp h =
     (if int (length sp) < 252 * h then NotAvailable
      else Pct (annualised_pct ops end_price (snd (nth_from_end sp (nat (252 * h)))) h))"



subsection \<open>Example data\<close>

text \<open>
  One choice of \<open>float_ops\<close> on which the model runs: the operations build the
  expression they are asked to evaluate, so a result shows the formula the code applied.
\<close>

datatype fexpr = Lit int | Quot int int | EDiv fexpr fexpr | ESub fexpr fexpr
  | EMul fexpr fexpr | EPow fexpr fexpr | ESqrt fexpr | ESum "fexpr list" | ERound fexpr int

definition symbolic_ops :: "fexpr float_ops" where
  "symbolic_ops = \<lparr> fl_of_int = Lit, fl_true_div = Quot,
      fl_div = (\<lambda>x y. Num (EDiv x y)), fl_sub = (\<lambda>x y. Num (ESub x y)),
      fl_mul = (\<lambda>x y. Num (EMul x y)), fl_pow = (\<lambda>x y. Num (EPow x y)),
      fl_sqrt = (\<lambda>x. Num (ESqrt x)), fl_sum = (\<lambda>xs. Num (ESum xs)), fl_round = ERound \<rparr>"

text \<open>A frame with the columns "Close" and "Adj Close", both holding the given prices.\<close>

definition price_frame :: "(int \<times> 'f float64) list \<Rightarrow> 'f dataframe" where
  "price_frame ps = \<lparr> columns = [''Close'', ''Adj Close''], rows = map (\<lambda>p. (fst p, \<lambda>col. snd p)) ps \<rparr>"

text \<open>Three trading days within five calendar days, one of them without a price.\<close>

definition week_frame :: "fexpr dataframe" where
  "week_frame = price_frame [(0, Num (Lit 100)), (1, NaN), (4, Num (Lit 110))]"

text \<open>Two trading days, 251 calendar days apart.\<close>

definition year_frame :: "fexpr dataframe" where
  "year_frame = price_frame [(0, Num (Lit 100)), (251, Num (Lit 110))]"


text \<open>Three trading days within 504 calendar days, and the percentage the code reports for them.\<close>

definition two_year_frame :: "fexpr dataframe" where
  "two_year_frame = price_frame [(0, Num (Lit 100)), (400, Num (Lit 110)), (503, Num (Lit 121))]"

definition two_year_pct :: "int \<Rightarrow> fexpr float64" where
  "two_year_pct h = Num (ERound (EMul (ESub (EPow (EDiv (Lit 121) (Lit 100)) (Quot 1 h)) (Lit 1)) (Lit 100)) 2)"

text \<open>A frame without an adjusted-close column, and a frame without rows.\<close>

definition close_only_frame :: "fexpr dataframe" where
  "close_only_frame = \<lparr> columns = [''Open'', ''Close''], rows = [(0, \<lambda>col. Num (Lit 100)), (1, \<lambda>col. Num (Lit 101))] \<rparr>"

definition empty_frame :: "fexpr dataframe" where
  "empty_frame = \<lparr> columns = [''Close'', ''Adj Close''], rows = [] \<rparr>"

definition three_days :: "fexpr series" where
  "three_days = [(7, Num (Lit 100)), (8, NaN), (9, Num (Lit 102))]"


section \<open>Auxiliary facts\<close>

subsection \<open>Column lookup\<close>

lemma find_adj_col_nonempty: "find_adj_col cols = Some c \<Longrightarrow> c \<noteq> []"
  unfolding find_adj_col_def by (auto simp: find_Some_iff remove_spaces_def str_lower_def)

lemma find_adj_col_None:
  "find_adj_col cols = None \<longleftrightarrow> (\<forall>col \<in> set cols. remove_spaces (str_lower col) \<noteq> ''adjclose'')"
  unfolding find_adj_col_def by (auto simp: find_None_iff)

subsection \<open>Keys of the result: different horizons have different keys\<close>

lemma num_of_digits: "num_of (digits n) = n"
proof (induction n rule: digits.induct)
  case (1 n)
  show ?case
  proof (cases "n < 10")
    case True
    then show ?thesis by (subst digits.simps) (simp add: num_of_def)
  next
    case False
    have "n mod 10 < 10" by simp
    then have "of_char (char_of (48 + n mod 10)) = 48 + n mod 10"
      by simp
    with False 1 show ?thesis
      by (subst digits.simps) (simp add: num_of_def)
  qed
qed

lemma digits_inj: "digits m = digits n \<Longrightarrow> m = n"
  by (metis num_of_digits)

lemma digits_chars: "c \<in> set (digits n) \<Longrightarrow> 48 \<le> (of_char c :: nat)"
proof (induction n rule: digits.induct)
  case (1 n)
  have a: "n < 10 \<Longrightarrow> of_char (char_of (48 + n)) = 48 + n"
    by simp
  have "n mod 10 < 10" by simp
  then have b: "of_char (char_of (48 + n mod 10)) = 48 + n mod 10"
    by simp
  from 1 show ?case
    by (subst (asm) (2) digits.simps) (auto simp: a b split: if_splits)
qed

lemma digits_no_minus: "digits n \<noteq> CHR ''-'' # cs"
proof
  assume "digits n = CHR ''-'' # cs"
  then have "CHR ''-'' \<in> set (digits n)" by simp
  then have "48 \<le> (of_char CHR ''-'' :: nat)" by (rule digits_chars)
  then show False by simp
qed

lemma str_of_int_inj:
  assumes "str_of_int a = str_of_int b"
  shows "a = b"
proof (cases "a < 0")
  case True
  show ?thesis
  proof (cases "b < 0")
    case True
    with \<open>a < 0\<close> assms have "nat (- a) = nat (- b)"
      by (simp add: str_of_int_def digits_inj)
    with True \<open>a < 0\<close> show ?thesis by simp
  next
    case False
    with \<open>a < 0\<close> assms have "digits (nat b) = CHR ''-'' # digits (nat (- a))"
      by (simp add: str_of_int_def)
    then show ?thesis by (simp add: digits_no_minus)
  qed
next
  case False
  show ?thesis
  proof (cases "b < 0")
    case True
    with \<open>\<not> a < 0\<close> assms have "digits (nat a) = CHR ''-'' # digits (nat (- b))"
      by (simp add: str_of_int_def)
    then show ?thesis by (simp add: digits_no_minus)
  next
    case False
    with \<open>\<not> a < 0\<close> assms have "nat a = nat b"
      by (simp add: str_of_int_def digits_inj)
    with False \<open>\<not> a < 0\<close> show ?thesis by simp
  qed
qed

lemma label_inj: "label a = label b \<Longrightarrow> a = b"
  by (simp add: label_def str_of_int_inj)

subsection \<open>Indexing from the end\<close>

lemma iloc_from_end:
  assumes "1 \<le> k" "k \<le> int (length xs)"
  shows "iloc xs (- k) = Inr (nth_from_end xs (nat k))"
proof -
  have "nat k - 1 < length xs" using assms by linarith
  then have "rev xs ! (nat k - 1) = xs ! (length xs - Suc (nat k - 1))"
    by (rule rev_nth)
  moreover have "length xs - Suc (nat k - 1) = nat (int (length xs) + - k)"
    using assms by linarith
  ultimately show ?thesis using assms by (simp add: iloc_def nth_from_end_def)
qed

lemma iloc_last: "xs \<noteq> [] \<Longrightarrow> iloc xs (- 1) = Inr (last xs)"
  using iloc_from_end [of 1 xs] by (cases xs rule: rev_cases) (auto simp: nth_from_end_def)

lemma nth_from_end_map:
  "1 \<le> k \<Longrightarrow> k \<le> length xs \<Longrightarrow> nth_from_end (map f xs) k = f (nth_from_end xs k)"
  by (simp add: nth_from_end_def rev_map)

subsection \<open>The loop over the horizons\<close>

lemma cagr_loop_step:
  assumes "0 < yr"
  shows "cagr_loop ops e sp (yr # years) d =
           cagr_loop ops e sp years (AList.update (label yr) (horizon_entry ops e sp yr) d)"
proof (cases "int (length sp) < 252 * yr")
  case True
  then show ?thesis by (simp add: horizon_entry_def)
next
  case False
  with assms have "iloc (map snd sp) (- (252 * yr)) = Inr (nth_from_end (map snd sp) (nat (252 * yr)))"
    by (intro iloc_from_end) auto
  moreover have "nth_from_end (map snd sp) (nat (252 * yr)) = snd (nth_from_end sp (nat (252 * yr)))"
    using False assms by (intro nth_from_end_map) linarith+
  ultimately show ?thesis using False assms
    by (simp add: horizon_entry_def annualised_pct_def)
qed

lemma cagr_loop_positive:
  assumes "\<forall>y \<in> set years. 0 < y"
  shows "\<exists>res. cagr_loop ops e sp years d = Inr res \<and>
           (\<forall>h. h \<in> set years \<or> map_of d (label h) = Some (horizon_entry ops e sp h)
                \<longrightarrow> map_of res (label h) = Some (horizon_entry ops e sp h))"
  using assms
proof (induction years arbitrary: d)
  case Nil
  then show ?case by simp
next
  case (Cons yr years)
  let ?d = "AList.update (label yr) (horizon_entry ops e sp yr) d"
  from Cons.prems have pos: "0 < yr" and rest: "\<forall>y \<in> set years. 0 < y" by simp_all
  from Cons.IH [OF rest, of ?d] obtain res where
    res: "cagr_loop ops e sp years ?d = Inr res"
    and inv: "\<And>h. h \<in> set years \<or> map_of ?d (label h) = Some (horizon_entry ops e sp h)
                \<Longrightarrow> map_of res (label h) = Some (horizon_entry ops e sp h)"
    by blast
  have "map_of res (label h) = Some (horizon_entry ops e sp h)"
    if h: "h \<in> set (yr # years) \<or> map_of d (label h) = Some (horizon_entry ops e sp h)" for h
  proof (cases "h = yr")
    case True
    then have "map_of ?d (label h) = Some (horizon_entry ops e sp h)"
      by (simp add: update_conv')
    then show ?thesis by (simp add: inv)
  next
    case False
    then have "label yr \<noteq> label h" using label_inj by blast
    then have "map_of ?d (label h) = map_of d (label h)"
      by (simp add: update_conv')
    with h False show ?thesis by (auto intro: inv)
  qed
  with res pos show ?case by (simp only: cagr_loop_step) blast
qed

subsection \<open>Resampling a series with increasing dates\<close>

lemma resample_increasing:
  assumes "increasing_dates s"
  shows "resample_1D_ffill s = Inr (map (\<lambda>d. (d, pad_at s d)) (calendar_days s))"
proof -
  from assms have "sorted (map fst s)" and "distinct (map fst s)"
    by (simp_all add: increasing_dates_def strict_sorted_iff)
  then show ?thesis
    by (simp add: resample_1D_ffill_def calendar_days_def sort_key_id_if_sorted)
qed

lemma pad_at_in_range:
  assumes "s \<noteq> []" "fst (hd s) \<le> d"
  shows "pad_at s d \<in> snd ` set s"
proof -
  from assms have "hd s \<in> set (filter (\<lambda>r. fst r \<le> d) s)" by simp
  then obtain r rs where eq: "filter (\<lambda>r. fst r \<le> d) s = r # rs"
    by (cases "filter (\<lambda>r. fst r \<le> d) s") auto
  have "last (r # rs) \<in> set (r # rs)" by (rule last_in_set) simp
  then have "last (r # rs) \<in> set s" by (metis eq filter_is_subset subsetD)
  then show ?thesis by (simp add: pad_at_def eq)
qed

lemma pad_at_own_date:
  assumes "increasing_dates s" "(d, v) \<in> set s"
  shows "pad_at s d = v"
proof -
  from assms(2) obtain xs ys where s: "s = xs @ (d, v) # ys"
    by (auto dest: split_list)
  from assms(1) have xs: "\<forall>x \<in> set xs. fst x < d" and ys: "\<forall>y \<in> set ys. d < fst y"
    by (auto simp: increasing_dates_def s sorted_wrt_append)
  from xs have "filter (\<lambda>r. fst r \<le> d) xs = xs" by (simp add: filter_id_conv less_imp_le)
  moreover from ys have "filter (\<lambda>r. fst r \<le> d) ys = []" by (auto simp: filter_empty_conv)
  ultimately have "filter (\<lambda>r. fst r \<le> d) s = xs @ [(d, v)]" by (simp add: s)
  then show ?thesis by (cases xs) (simp_all add: pad_at_def)
qed

lemma one_per_day_increasing: "one_per_day s \<Longrightarrow> increasing_dates s"
  by (simp add: one_per_day_def increasing_dates_def calendar_days_def strict_sorted_iff split: if_splits)

lemma resample_one_per_day:
  assumes "one_per_day s"
  shows "resample_1D_ffill s = Inr s"
proof -
  have inc: "increasing_dates s" using assms by (rule one_per_day_increasing)
  have "map (\<lambda>d. (d, pad_at s d)) (map fst s) = s"
    unfolding map_map by (rule map_idI) (auto simp: pad_at_own_date [OF inc])
  with assms show ?thesis
    by (simp add: resample_increasing [OF inc] one_per_day_def)
qed

lemma length_calendar_days:
  assumes "increasing_dates s" "s \<noteq> []"
  shows "int (length (calendar_days s)) = calendar_span s"
proof -
  have "fst (hd s) \<le> fst (last s)"
  proof (cases "length s = 1")
    case True
    then show ?thesis by (cases s) auto
  next
    case False
    with assms(2) have "0 < length s - 1" by (cases s) auto
    with assms have "map fst s ! 0 < map fst s ! (length s - 1)"
      unfolding increasing_dates_def by (intro sorted_wrt_nth_less) auto
    with assms(2) show ?thesis by (simp add: hd_conv_nth last_conv_nth)
  qed
  with assms(2) show ?thesis by (simp add: calendar_days_def calendar_span_def)
qed

lemma length_dropna_le: "length (dropna s) \<le> length s"
  by (simp add: dropna_def)

text \<open>
  When no cell is NaN, every calendar day carries a value, \<^verbatim>\<open>dropna\<close> drops nothing
  and the daily series counts as many entries as the calendar span has days.
\<close>

lemma dropna_resampled_complete:
  assumes "\<forall>r \<in> set s. snd r \<noteq> NaN"
  shows "dropna (map (\<lambda>d. (d, pad_at s d)) (calendar_days s)) = map (\<lambda>d. (d, pad_at s d)) (calendar_days s)"
proof (cases "s = []")
  case True
  then show ?thesis by (simp add: calendar_days_def dropna_def)
next
  case False
  have "pad_at s d \<noteq> NaN" if "d \<in> set (calendar_days s)" for d
  proof -
    from that False have "fst (hd s) \<le> d" by (simp add: calendar_days_def)
    with False have "pad_at s d \<in> snd ` set s" by (rule pad_at_in_range)
    with assms show ?thesis by auto
  qed
  then show ?thesis unfolding dropna_def by (simp add: filter_id_conv)
qed

lemma daily_count_without_nan:
  assumes "increasing_dates s" "s \<noteq> []" "\<forall>r \<in> set s. snd r \<noteq> NaN" "resample_1D_ffill s = Inr r"
  shows "int (length (dropna r)) = calendar_span s"
proof -
  from assms(1,4) have "r = map (\<lambda>d. (d, pad_at s d)) (calendar_days s)"
    by (simp add: resample_increasing)
  with assms(3) have "dropna r = map (\<lambda>d. (d, pad_at s d)) (calendar_days s)"
    by (simp add: dropna_resampled_complete)
  then have "int (length (dropna r)) = int (length (calendar_days s))" by simp
  with assms(1,2) show ?thesis by (simp add: length_calendar_days)
qed

subsection \<open>The call as a whole\<close>

lemma calculate_cagr_result:
  assumes col: "find_adj_col (columns history) = Some c"
    and rows: "rows history \<noteq> []"
    and inc: "increasing_dates (get_column history c)"
    and pos: "list_all (\<lambda>y. 0 < y) years"
  shows "\<exists>res r. calculate_cagr ops history years = Inr (Some res) \<and>
           resample_1D_ffill (get_column history c) = Inr r \<and>
           (\<forall>h \<in> set years. map_of res (label h) =
              Some (horizon_entry ops (snd (last (get_column history c))) (dropna r) h))"
proof -
  let ?s = "get_column history c"
  from rows have ne: "?s \<noteq> []" by (simp add: get_column_def)
  then have e: "iloc (map snd ?s) (- 1) = Inr (snd (last ?s))"
    by (simp add: iloc_last last_map)
  from resample_increasing [OF inc] obtain r where r: "resample_1D_ffill ?s = Inr r" by blast
  from pos have "\<forall>y \<in> set years. 0 < y" by (simp add: list_all_iff)
  from cagr_loop_positive [OF this, of ops "snd (last ?s)" "dropna r" "[]"]
  obtain res where res: "cagr_loop ops (snd (last ?s)) (dropna r) years [] = Inr res"
    and ent: "\<forall>h \<in> set years. map_of res (label h) = Some (horizon_entry ops (snd (last ?s)) (dropna r) h)"
    by blast
  from col rows e r res have "calculate_cagr ops history years = Inr (Some res)"
    by (simp add: calculate_cagr_def find_adj_col_nonempty)
  with r ent show ?thesis by blast
qed

text \<open>
  A call that returns a dict ran the loop on some end price and daily series, and these
  depend on the frame only: a call with other horizons runs the loop on the same two.
\<close>

lemma cagr_loop_of_result:
  assumes "calculate_cagr ops history years = Inr (Some res)"
  shows "\<exists>e sp. cagr_loop ops e sp years [] = Inr res \<and>
           (\<forall>years' res'. cagr_loop ops e sp years' [] = Inr res' \<longrightarrow>
              calculate_cagr ops history years' = Inr (Some res'))"
proof -
  from assms obtain c e r where
    c: "find_adj_col (columns history) = Some c" "c \<noteq> []" "rows history \<noteq> []"
    and e: "iloc (map snd (get_column history c)) (- 1) = Inr e"
    and r: "resample_1D_ffill (get_column history c) = Inr r"
    and loop: "cagr_loop ops e (dropna r) years [] = Inr res"
    by (auto simp: calculate_cagr_def split: option.splits if_splits sum.splits)
  have "calculate_cagr ops history years' = Inr (Some res')"
    if "cagr_loop ops e (dropna r) years' [] = Inr res'" for years' res'
    using that c e r by (simp add: calculate_cagr_def)
  with loop show ?thesis by blast
qed

subsection \<open>Percentage changes and the standard deviation\<close>

lemma nan_lift2_NaN [simp]: "nan_lift2 f NaN b = NaN" "nan_lift2 f a NaN = NaN"
  by (simp_all add: nan_lift2_def split: float64.splits)








section \<open>The properties\<close>








text \<open>
  Claim C4, as stated: whenever the series has fewer rows than \<open>252 * h\<close>, horizon \<open>h\<close>
  is marked "N/A". It fails: the count that decides is taken after the resampling to
  calendar days. Two rows 251 days apart make 252 daily entries, and the horizon of one
  year gets a percentage.
\<close>

theorem raw_row_count_counterexample:
  "int (length (rows year_frame)) < 252 * 1 \<and>
   calculate_cagr symbolic_ops year_frame [1] =
     Inr (Some [(label 1,
       Pct (Num (ERound (EMul (ESub (EPow (EDiv (Lit 110) (Lit 100)) (Quot 1 1)) (Lit 1)) (Lit 100)) 2)))])"
  by code_simp

text \<open>
  Claim C4, amended. For a price series with a resolvable adjusted-close column and at
  least one observation, and a positive horizon \<open>h\<close> among the requested ones: whenever
  the series spans fewer than \<open>252 * h\<close> calendar days, from its first date to its last
  with both counted, horizon \<open>h\<close> is marked "N/A".
\<close>

theorem cagr_not_available_short_span:
  assumes "increasing_dates (get_column history c)"
    and "find_adj_col (columns history) = Some c"
    and "rows history \<noteq> []"
    and "list_all (\<lambda>y. 0 < y) years"
    and "h \<in> set years"
    and "calendar_span (get_column history c) < 252 * h"
  shows "\<exists>res. calculate_cagr ops history years = Inr (Some res) \<and>
           map_of res (label h) = Some NotAvailable"
proof -
  let ?s = "get_column history c"
  from assms(3) have ne: "?s \<noteq> []" by (simp add: get_column_def)
  from calculate_cagr_result [OF assms(2,3,1,4), of ops] assms(5) obtain res r where
    res: "calculate_cagr ops history years = Inr (Some res)"
    and r: "resample_1D_ffill ?s = Inr r"
    and ent: "map_of res (label h) = Some (horizon_entry ops (snd (last ?s)) (dropna r) h)"
    by blast
  from r have "r = map (\<lambda>d. (d, pad_at ?s d)) (calendar_days ?s)"
    by (simp add: resample_increasing [OF assms(1)])
  then have "int (length (dropna r)) \<le> int (length (calendar_days ?s))"
    using length_dropna_le [of r] by simp
  also have "\<dots> = calendar_span ?s"
    by (rule length_calendar_days [OF assms(1) ne])
  finally have "int (length (dropna r)) < 252 * h" using assms(6) by simp
  with res ent show ?thesis by (simp add: horizon_entry_def)
qed

theorem cagr_not_available_short_span_witness:
  "increasing_dates (get_column week_frame ''Adj Close'') \<and>
   find_adj_col (columns week_frame) = Some ''Adj Close'' \<and> rows week_frame \<noteq> [] \<and>
   list_all (\<lambda>y. 0 < y) [1, 5 :: int] \<and> (5::int) \<in> set [1, 5] \<and>
   calendar_span (get_column week_frame ''Adj Close'') < 252 * 5 \<and>
   (\<exists>res. calculate_cagr symbolic_ops week_frame [1, 5] = Inr (Some res) \<and>
      map_of res (label 5) = Some NotAvailable)"
proof -
  have a: "increasing_dates (get_column week_frame ''Adj Close'')" by code_simp
  have b: "find_adj_col (columns week_frame) = Some ''Adj Close''" by code_simp
  have c: "rows week_frame \<noteq> []" by code_simp
  have d: "list_all (\<lambda>y. 0 < y) [1, 5 :: int]" by simp
  have e: "(5::int) \<in> set [1, 5]" by simp
  have f: "calendar_span (get_column week_frame ''Adj Close'') < 252 * 5" by code_simp
  from cagr_not_available_short_span [OF a b c d e f, of symbolic_ops] a b c d e f
  show ?thesis by blast
qed



text \<open>
  Claim C6. When no column label, lowercased and with its spaces removed, equals
  "adjclose", \<^verbatim>\<open>calculate_cagr\<close> (for any horizons) and
  \<^verbatim>\<open>calculate_annual_volatility\<close> both return None, and neither raises.
\<close>

theorem no_adjusted_close_column:
  assumes "list_all (\<lambda>col. remove_spaces (str_lower col) \<noteq> ''adjclose'') (columns history)"
  shows "calculate_cagr ops history years = Inr None \<and> calculate_annual_volatility ops history = None"
proof -
  from assms have "find_adj_col (columns history) = None"
    by (simp add: find_adj_col_None list_all_iff)
  then show ?thesis by (simp add: calculate_cagr_def calculate_annual_volatility_def)
qed

theorem no_adjusted_close_column_witness:
  "list_all (\<lambda>col. remove_spaces (str_lower col) \<noteq> ''adjclose'') (columns close_only_frame) \<and>
   calculate_cagr symbolic_ops close_only_frame [1, 3, 5] = Inr None \<and>
   calculate_annual_volatility symbolic_ops close_only_frame = None"
proof -
  have a: "list_all (\<lambda>col. remove_spaces (str_lower col) \<noteq> ''adjclose'') (columns close_only_frame)"
    by code_simp
  from no_adjusted_close_column [OF a, of symbolic_ops "[1, 3, 5]"] a show ?thesis by blast
qed

text \<open>
  Claim C7. For a series without observations and any horizons,
  \<^verbatim>\<open>calculate_cagr\<close> and \<^verbatim>\<open>calculate_annual_volatility\<close> both return None, and
  neither raises.
\<close>

theorem empty_series_no_result:
  assumes "rows history = []"
  shows "calculate_cagr ops history years = Inr None \<and> calculate_annual_volatility ops history = None"
  using assms
  by (simp add: calculate_cagr_def calculate_annual_volatility_def split: option.splits)

theorem empty_series_no_result_witness:
  "rows empty_frame = [] \<and> calculate_cagr symbolic_ops empty_frame [1, 3, 5] = Inr None \<and>
   calculate_annual_volatility symbolic_ops empty_frame = None"
proof -
  have a: "rows empty_frame = []" by code_simp
  from empty_series_no_result [OF a, of symbolic_ops "[1, 3, 5]"] a show ?thesis by blast
qed

text \<open>
  Claim C8. On a series that already has exactly one observation on every calendar day
  between its first and its last date, the resampling \<^verbatim>\<open>resample('1D').ffill()\<close> of
  \<^verbatim>\<open>calculate_cagr\<close> returns the same dates with the same values.
\<close>

theorem resample_daily_series_unchanged:
  assumes "one_per_day s"
  shows "resample_1D_ffill s = Inr s"
  using assms by (rule resample_one_per_day)

theorem resample_daily_series_unchanged_witness:
  "one_per_day three_days \<and> resample_1D_ffill three_days = Inr three_days"
proof -
  have a: "one_per_day three_days" by code_simp
  from resample_daily_series_unchanged [OF a] a show ?thesis by blast
qed


text \<open>
  Claim C10. Availability is antitone in the horizon: when \<^verbatim>\<open>calculate_cagr\<close>
  returns a dict that holds a percentage for the horizon \<open>h\<close>, a call on the same frame
  that asks for a horizon \<open>h' \<le> h\<close> returns a dict that holds a percentage for \<open>h'\<close>.
  All horizons asked for are positive; the two calls may ask for the same horizons.
\<close>

theorem cagr_available_antitone:
  assumes "calculate_cagr ops history years = Inr (Some res)"
    and "list_all (\<lambda>y. 0 < y) years"
    and "h \<in> set years"
    and "map_of res (label h) = Some (Pct v)"
    and "list_all (\<lambda>y. 0 < y) years'"
    and "h' \<in> set years'"
    and "h' \<le> h"
  shows "\<exists>res' v'. calculate_cagr ops history years' = Inr (Some res') \<and>
           map_of res' (label h') = Some (Pct v')"
proof -
  from cagr_loop_of_result [OF assms(1)] obtain e sp where
    loop: "cagr_loop ops e sp years [] = Inr res"
    and other: "\<And>ys res'. cagr_loop ops e sp ys [] = Inr res' \<Longrightarrow>
                  calculate_cagr ops history ys = Inr (Some res')"
    by blast
  from assms(2) have "\<forall>y \<in> set years. 0 < y" by (simp add: list_all_iff)
  from cagr_loop_positive [OF this, of ops e sp "[]"] loop assms(3)
  have "map_of res (label h) = Some (horizon_entry ops e sp h)" by auto
  with assms(4) have "\<not> int (length sp) < 252 * h"
    by (auto simp: horizon_entry_def split: if_splits)
  with assms(7) have enough: "\<not> int (length sp) < 252 * h'" by simp
  from assms(5) have "\<forall>y \<in> set years'. 0 < y" by (simp add: list_all_iff)
  from cagr_loop_positive [OF this, of ops e sp "[]"] assms(6) obtain res' where
    loop': "cagr_loop ops e sp years' [] = Inr res'"
    and ent': "map_of res' (label h') = Some (horizon_entry ops e sp h')"
    by blast
  from other [OF loop'] ent' enough show ?thesis by (simp add: horizon_entry_def)
qed

theorem cagr_available_antitone_witness:
  "calculate_cagr symbolic_ops two_year_frame [2] = Inr (Some [(''2Y'', Pct (two_year_pct 2))]) \<and>
   list_all (\<lambda>y. 0 < y) [2 :: int] \<and> (2::int) \<in> set [2] \<and>
   map_of [(''2Y'', Pct (two_year_pct 2))] (label 2) = Some (Pct (two_year_pct 2)) \<and>
   list_all (\<lambda>y. 0 < y) [3, 1 :: int] \<and> (1::int) \<in> set [3, 1] \<and> (1::int) \<le> 2 \<and>
   (\<exists>res' v'. calculate_cagr symbolic_ops two_year_frame [3, 1] = Inr (Some res') \<and>
      map_of res' (label 1) = Some (Pct v'))"
proof -
  have a: "calculate_cagr symbolic_ops two_year_frame [2] = Inr (Some [(''2Y'', Pct (two_year_pct 2))])"
    by code_simp
  have b: "list_all (\<lambda>y. 0 < y) [2 :: int]" by simp
  have c: "(2::int) \<in> set [2]" by simp
  have d: "map_of [(''2Y'', Pct (two_year_pct 2))] (label 2) = Some (Pct (two_year_pct 2))"
    by code_simp
  have e: "list_all (\<lambda>y. 0 < y) [3, 1 :: int]" by simp
  have f: "(1::int) \<in> set [3, 1]" by simp
  have g: "(1::int) \<le> 2" by simp
  from cagr_available_antitone [OF a b c d e f g] a b c d e f g show ?thesis by blast
qed

end
